theory Spec2Isabelle
  imports Main "HOL-Library.Sublist"
begin

section \<open>SendGrid-CLI: address parsing, body negotiation and request assembly\<close>

text \<open>
  The model follows the latest revision of \<^verbatim>\<open>cmd/root.go\<close>, the one with templates
  and the legacy login by user name and password; \<open>send_root\<close> is the command of the
  revision before it, which has the same address parser and body search. Go strings are
  byte sequences, so a Go \<^verbatim>\<open>string\<close> is a \<^typ>\<open>string\<close> (a list of 8-bit characters).
  \<^verbatim>\<open>log.Fatal\<close> ends the process at once: every such exit is an \<open>Inl\<close> result carrying
  the kind of the failure, and a result \<open>Inr\<close> means that the run went on.
\<close>

subsection \<open>Failures\<close>

datatype error =
    MissingAddress            \<comment> \<open>\<^verbatim>\<open>Missing email adderess.\<close>\<close>
  | IncorrectAddress          \<comment> \<open>\<^verbatim>\<open>Email address is incorrect:\<close>\<close>
  | MissingBody               \<comment> \<open>\<^verbatim>\<open>Missing message body.\<close> (both exits of messageBodies)\<close>
  | NoContentWay              \<comment> \<open>\<^verbatim>\<open>Need to have at least one way of providing the message content.\<close>\<close>
  | TooManyArguments          \<comment> \<open>\<^verbatim>\<open>Too many positional argumets\<close>\<close>
  | SubjectRequired           \<comment> \<open>\<^verbatim>\<open>The subject is required.\<close>\<close>
  | NoRecipient               \<comment> \<open>\<^verbatim>\<open>At lease one recepient should be present.\<close>\<close>
  | FileReadError string      \<comment> \<open>\<^verbatim>\<open>ioutil.ReadFile\<close> failed on the named file\<close>
  | MissingCredentials        \<comment> \<open>\<^verbatim>\<open>Ether Sandgrid API Key or username and password should be present.\<close>\<close>
  | IncorrectSubstitution     \<comment> \<open>\<^verbatim>\<open>Incorrect substitution\<close>\<close>
  | RequestFailed string      \<comment> \<open>\<^verbatim>\<open>Failed to create the API request.\<close> (the named file)\<close>
  | NilPointerPanic           \<comment> \<open>the runtime panic of reading a field through a nil pointer\<close>

subsection \<open>The functions of package strings that the program calls\<close>

text \<open>\<^verbatim>\<open>strings.Index(s, substr)\<close>: the position of the first occurrence, if any.\<close>

fun Index :: "string \<Rightarrow> string \<Rightarrow> nat option" where
  "Index [] substr = (if substr = [] then Some 0 else None)"
| "Index (c # cs) substr =
     (if prefix substr (c # cs) then Some 0 else map_option Suc (Index cs substr))"

text \<open>
  \<^verbatim>\<open>strings.Split(s, sep)\<close> for a non-empty separator: cut at the first occurrence, go
  on behind it. The program splits on \<^verbatim>\<open>" <"\<close> only; the empty separator (which in Go
  explodes the string into UTF-8 sequences) is never used and returns \<open>[s]\<close> here.
\<close>

function Split :: "string \<Rightarrow> string \<Rightarrow> string list" where
  "Split s sep =
     (if sep = [] then [s]
      else case Index s sep of
             None \<Rightarrow> [s]
           | Some m \<Rightarrow> take m s # Split (drop (m + length sep) s) sep)"
  by pat_completeness auto

termination Split
proof (relation "measure (\<lambda>(s, sep). length s)")
  show "wf (measure (\<lambda>(s, sep). length s))" by simp
next
  fix s sep :: string and m :: nat
  assume "sep \<noteq> []" and "Index s sep = Some m"
  then have "s \<noteq> []" by (cases s) auto
  with \<open>sep \<noteq> []\<close> show "((drop (m + length sep) s, sep), (s, sep)) \<in> measure (\<lambda>(s, sep). length s)"
    by (cases sep) auto
qed

declare Split.simps [simp del]

text \<open>
  \<^verbatim>\<open>strings.Trim(s, cutset)\<close> is \<^verbatim>\<open>TrimRightFunc(TrimLeftFunc(s, f), f)\<close> with \<open>f\<close> the
  membership in the cutset. The cutset of the program is ASCII, and no byte of a
  multi-byte UTF-8 sequence is ASCII, so trimming bytes is trimming code points.
\<close>

definition TrimLeft :: "string \<Rightarrow> string \<Rightarrow> string" where
  "TrimLeft s cutset = dropWhile (\<lambda>c. c \<in> set cutset) s"

definition TrimRight :: "string \<Rightarrow> string \<Rightarrow> string" where
  "TrimRight s cutset = rev (dropWhile (\<lambda>c. c \<in> set cutset) (rev s))"

definition Trim :: "string \<Rightarrow> string \<Rightarrow> string" where
  "Trim s cutset = TrimRight (TrimLeft s cutset) cutset"

subsection \<open>Addresses\<close>

text \<open>\<^verbatim>\<open>mail.Email\<close> of sendgrid-go and its constructor \<^verbatim>\<open>mail.NewEmail(name, address)\<close>.\<close>

record Email =
  Name :: string
  Address :: string

definition NewEmail :: "string \<Rightarrow> string \<Rightarrow> Email" where
  "NewEmail name address = \<lparr>Name = name, Address = address\<rparr>"

text \<open>
  \<^verbatim>\<open>createAddress\<close>: the two fatal exits, then every part trimmed of spaces and angle
  brackets, then part 0 for both fields or parts 0 and 1. The test of part 0 comes before
  the trimming, as in the source.
\<close>

definition createAddress :: "string \<Rightarrow> error + Email" where
  "createAddress raw =
     (if raw = [] then Inl MissingAddress
      else
        let parts = Split raw '' <'' in
        if length parts = 0 \<or> hd parts = [] then Inl IncorrectAddress
        else
          let parts = map (\<lambda>p. Trim p '' ><'') parts in
          if length parts < 2 then Inr (NewEmail (parts ! 0) (parts ! 0))
          else Inr (NewEmail (parts ! 0) (parts ! 1)))"

text \<open>A string neither begins nor ends with a character of the cutset.\<close>

definition trimmed :: "string \<Rightarrow> string \<Rightarrow> bool" where
  "trimmed cutset s = (s = [] \<or> (hd s \<notin> set cutset \<and> last s \<notin> set cutset))"


subsection \<open>The pattern that detects an HTML body\<close>

text \<open>
  \<^verbatim>\<open>regexp.MatchString\<close> reports whether some substring matches the pattern. Regular
  expressions are matched by derivatives; a character class is a predicate on bytes. The
  classes of the program's pattern are ASCII or the complement of one ASCII character,
  so matching bytes is matching code points.
\<close>

datatype regex =
    Fail
  | Eps
  | Class "char \<Rightarrow> bool"
  | Alt regex regex
  | Cat regex regex
  | Star regex

primrec nullable :: "regex \<Rightarrow> bool" where
  "nullable Fail = False"
| "nullable Eps = True"
| "nullable (Class P) = False"
| "nullable (Alt r s) = (nullable r \<or> nullable s)"
| "nullable (Cat r s) = (nullable r \<and> nullable s)"
| "nullable (Star r) = True"

primrec deriv :: "char \<Rightarrow> regex \<Rightarrow> regex" where
  "deriv c Fail = Fail"
| "deriv c Eps = Fail"
| "deriv c (Class P) = (if P c then Eps else Fail)"
| "deriv c (Alt r s) = Alt (deriv c r) (deriv c s)"
| "deriv c (Cat r s) =
     (if nullable r then Alt (Cat (deriv c r) s) (deriv c s) else Cat (deriv c r) s)"
| "deriv c (Star r) = Cat (deriv c r) (Star r)"

definition matches :: "regex \<Rightarrow> string \<Rightarrow> bool" where
  "matches r s = nullable (fold deriv s r)"

definition anything :: regex where
  "anything = Star (Class (\<lambda>c. True))"

definition MatchString :: "regex \<Rightarrow> string \<Rightarrow> bool" where
  "MatchString pattern s = matches (Cat anything (Cat pattern anything)) s"

text \<open>
  What matching means, to check the matcher against: the words of a regular expression.
  A round of the star takes a non-empty word.
\<close>

inductive accepts :: "regex \<Rightarrow> string \<Rightarrow> bool" where
  accepts_Eps: "accepts Eps []"
| accepts_Class: "P c \<Longrightarrow> accepts (Class P) [c]"
| accepts_AltL: "accepts r u \<Longrightarrow> accepts (Alt r s) u"
| accepts_AltR: "accepts s u \<Longrightarrow> accepts (Alt r s) u"
| accepts_Cat: "accepts r u \<Longrightarrow> accepts s v \<Longrightarrow> accepts (Cat r s) (u @ v)"
| accepts_Star_Nil: "accepts (Star r) []"
| accepts_Star_step: "accepts r (c # u) \<Longrightarrow> accepts (Star r) v \<Longrightarrow> accepts (Star r) (c # u @ v)"

text \<open>The class \<^verbatim>\<open>\w\<close> of Go's regexp: \<^verbatim>\<open>[0-9A-Za-z_]\<close>.\<close>

definition word_char :: "char \<Rightarrow> bool" where
  "word_char c =
     (c \<in> set ''0123456789ABCDEFGHIJKLMNOPQRSTUVWXYZ_abcdefghijklmnopqrstuvwxyz'')"

text \<open>
  The pattern of \<^verbatim>\<open>messageBodies\<close>: an escaped \<^verbatim>\<open><\<close>, then \<^verbatim>\<open>[\w]{1,}\<close>, then \<^verbatim>\<open>[^>]*\<close>,
  then an escaped \<^verbatim>\<open>>\<close>; that is an opening angle bracket, one or more word characters,
  any characters other than the closing bracket, and the closing bracket.
\<close>

definition html_pattern :: regex where
  "html_pattern =
     Cat (Class (\<lambda>c. c = CHR ''<''))
       (Cat (Cat (Class word_char) (Star (Class word_char)))
         (Cat (Star (Class (\<lambda>c. c \<noteq> CHR ''>''))) (Class (\<lambda>c. c = CHR ''>''))))"

subsection \<open>The converter of html2text on simple documents\<close>

text \<open>
  \<^verbatim>\<open>html2text.FromString\<close> belongs to the library \<^verbatim>\<open>github.com/jaytaylor/html2text\<close>, not
  to the repository. It parses the input with \<^verbatim>\<open>golang.org/x/net/html\<close>, walks the tree
  and writes into a buffer, and tidies the buffer at the end. It is modelled here on the
  simple documents only: runs of printable ASCII text without \<^verbatim>\<open><\<close> and \<^verbatim>\<open>&\<close>, and
  paragraphs \<^verbatim>\<open><p>\<close>...\<^verbatim>\<open></p>\<close> of such text. On them the parser yields a body whose
  children are the text nodes and the paragraph elements in the order of the input (it
  drops the spaces in front of the first of them, which a text node would lose anyway);
  no entity, attribute, implied end tag or other element comes into play. What the
  library does on every other input is left open: it is the parameter \<open>rest\<close> of
  \<open>FromString\<close>.
\<close>

definition plain_char :: "char \<Rightarrow> bool" where
  "plain_char c \<longleftrightarrow>
     32 \<le> (of_char c :: nat) \<and> (of_char c :: nat) \<le> 126 \<and> c \<noteq> CHR ''<'' \<and> c \<noteq> CHR ''&''"

datatype piece = Text string | Paragraph string

function pieces :: "string \<Rightarrow> piece list option" where
  "pieces s =
     (if s = [] then Some []
      else if prefix ''<p>'' s then
        if prefix ''</p>'' (dropWhile plain_char (drop 3 s))
        then map_option ((#) (Paragraph (takeWhile plain_char (drop 3 s))))
               (pieces (drop 4 (dropWhile plain_char (drop 3 s))))
        else None
      else if takeWhile plain_char s = [] then None
      else map_option ((#) (Text (takeWhile plain_char s))) (pieces (dropWhile plain_char s)))"
  by pat_completeness auto

termination pieces
proof (relation "measure length")
  show "wf (measure length)" by simp
next
  fix s :: string
  assume "s \<noteq> []"
  have "length (dropWhile plain_char (drop 3 s)) \<le> length (drop 3 s)"
    by (rule length_dropWhile_le)
  with \<open>s \<noteq> []\<close> show "(drop 4 (dropWhile plain_char (drop 3 s)), s) \<in> measure length"
    by (cases s) auto
next
  fix s :: string
  assume "takeWhile plain_char s \<noteq> []"
  then have "0 < length (takeWhile plain_char s)" by simp
  moreover have "length (takeWhile plain_char s) + length (dropWhile plain_char s) = length s"
    by (metis length_append takeWhile_dropWhile_id)
  ultimately show "(dropWhile plain_char s, s) \<in> measure length"
    unfolding in_measure by linarith
qed

declare pieces.simps [simp del]

text \<open>
  A text node is written with every run of \<^verbatim>\<open>[ \r\n\t]\<close> made one space (the pattern
  \<^verbatim>\<open>spacingRe\<close>) and the spaces at both ends cut.
\<close>

definition spacing :: "char \<Rightarrow> bool" where
  "spacing c \<longleftrightarrow> c \<in> {CHR '' '', CHR 0x0D, CHR 0x0A, CHR 0x09}"

fun collapse :: "bool \<Rightarrow> string \<Rightarrow> string" where
  "collapse in_run [] = []"
| "collapse in_run (c # cs) =
     (if spacing c then (if in_run then collapse True cs else CHR '' '' # collapse True cs)
      else c # collapse False cs)"

definition textData :: "string \<Rightarrow> string" where
  "textData d = Trim (collapse False d) '' ''"

text \<open>
  \<^verbatim>\<open>emit\<close> on the buffer and the flag \<^verbatim>\<open>endsWithSpace\<close> (false at the start): nothing for
  empty data; else a space first when the data does not begin with white space and the
  buffer does not end with it, then the data. Outside block quotes the data is one line
  and there is no prefix. (Later revisions of the library leave that space out before a
  full stop too; on these documents the space is only ever written at the very start of
  the buffer, which is trimmed at the end.)
\<close>

definition isSpace :: "char \<Rightarrow> bool" where
  "isSpace c \<longleftrightarrow> c \<in> {CHR 0x09, CHR 0x0A, CHR 0x0B, CHR 0x0C, CHR 0x0D, CHR '' ''}"

definition emit :: "string \<Rightarrow> string \<times> bool \<Rightarrow> string \<times> bool" where
  "emit d st =
     (if d = [] then st
      else (fst st @ (if \<not> isSpace (hd d) \<and> \<not> snd st then '' '' else []) @ d,
            isSpace (last d)))"

text \<open>A paragraph is two newlines, its children, two newlines.\<close>

definition newlines :: string where
  "newlines = [CHR 0x0A, CHR 0x0A]"

fun traverse :: "piece \<Rightarrow> string \<times> bool \<Rightarrow> string \<times> bool" where
  "traverse (Text d) st = emit (textData d) st"
| "traverse (Paragraph d) st = emit newlines (emit (textData d) (emit newlines st))"

text \<open>
  The end of \<^verbatim>\<open>FromHTMLNode\<close>: every newline followed by a space loses the space
  (\<^verbatim>\<open>strings.Replace\<close>, one pass), every run of two or more newlines becomes two (the
  pattern \<^verbatim>\<open>newlineRe\<close>), and the white space at both ends is cut (\<^verbatim>\<open>strings.TrimSpace\<close>).
\<close>

fun newlineSpace :: "string \<Rightarrow> string" where
  "newlineSpace (a # b # cs) =
     (if a = CHR 0x0A \<and> b = CHR '' '' then CHR 0x0A # newlineSpace cs
      else a # newlineSpace (b # cs))"
| "newlineSpace cs = cs"

fun squeeze :: "nat \<Rightarrow> string \<Rightarrow> string" where
  "squeeze n [] = []"
| "squeeze n (c # cs) =
     (if c = CHR 0x0A then (if 2 \<le> n then squeeze n cs else c # squeeze (Suc n) cs)
      else c # squeeze 0 cs)"

definition TrimSpace :: "string \<Rightarrow> string" where
  "TrimSpace s = Trim s [CHR 0x09, CHR 0x0A, CHR 0x0B, CHR 0x0C, CHR 0x0D, CHR '' '']"

definition render :: "piece list \<Rightarrow> string" where
  "render ps = TrimSpace (squeeze 0 (newlineSpace (fst (fold traverse ps ([], False)))))"

definition FromString :: "(string \<Rightarrow> string) \<Rightarrow> string \<Rightarrow> string" where
  "FromString rest input = (case pieces input of Some ps \<Rightarrow> render ps | None \<Rightarrow> rest input)"

subsection \<open>Searching the arguments for the bodies\<close>

text \<open>
  The loop of \<^verbatim>\<open>messageBodies\<close> over \<open>args\<close> from index \<open>i\<close> on: \<open>Some\<close> is the
  \<^verbatim>\<open>return\<close> inside the loop at the first match, \<open>None\<close> the end of the loop. The
  converter is \<^verbatim>\<open>html2text.FromString\<close>, whose error is only logged: its text is the
  plain body whatever happens.
\<close>

fun scanBodies :: "(string \<Rightarrow> string) \<Rightarrow> string list \<Rightarrow> nat \<Rightarrow> string list
    \<Rightarrow> (string \<times> string) option" where
  "scanBodies conv args i [] = None"
| "scanBodies conv args i (b # bs) =
     (if MatchString html_pattern b then
        Some (b,
          if length args = 1 then conv b
          else if i = 0 \<and> args ! 1 \<noteq> [] then args ! 1
          else if i = 1 \<and> args ! 0 \<noteq> [] then args ! 0
          else [])
      else scanBodies conv args (Suc i) bs)"

definition messageBodies :: "(string \<Rightarrow> string) \<Rightarrow> string list \<Rightarrow> error + (string \<times> string)" where
  "messageBodies conv args =
     (if length args = 0 then Inl MissingBody
      else case scanBodies conv args 0 args of
             Some bodies \<Rightarrow> Inr bodies
           | None \<Rightarrow> if args ! 0 = [] then Inl MissingBody else Inr ([], args ! 0))"

subsection \<open>The message of sendgrid-go\<close>

text \<open>
  The structures of \<^verbatim>\<open>sendgrid-go/helpers/mail\<close> with the fields the program sets.
  A \<^verbatim>\<open>*mail.Email\<close> in a slice is an \<^typ>\<open>Email option\<close>: \<open>None\<close> is the nil pointer
  that \<^verbatim>\<open>make([]*mail.Email, n)\<close> fills the slice with.
\<close>

record Content =
  Type :: string
  Value :: string

record Attachment =
  AttContent :: string
  AttType :: string
  Filename :: string
  Disposition :: string

record Personalization =
  To :: "Email option list"
  CC :: "Email option list"
  Substitutions :: "string \<rightharpoonup> string"

record SGMailV3 =
  From :: "Email option"
  Subject :: string
  Personalizations :: "Personalization list"
  MailContent :: "Content list"
  Attachments :: "Attachment list"
  TemplateID :: string

definition NewContent :: "string \<Rightarrow> string \<Rightarrow> Content" where
  "NewContent contentType v = \<lparr>Type = contentType, Value = v\<rparr>"

definition NewPersonalization :: Personalization where
  "NewPersonalization = \<lparr>To = [], CC = [], Substitutions = Map.empty\<rparr>"

definition AddTos :: "Email option list \<Rightarrow> Personalization \<Rightarrow> Personalization" where
  "AddTos tos p = p\<lparr>To := To p @ tos\<rparr>"

definition AddCCs :: "Email option list \<Rightarrow> Personalization \<Rightarrow> Personalization" where
  "AddCCs ccs p = p\<lparr>CC := CC p @ ccs\<rparr>"

definition SetSubstitution :: "string \<Rightarrow> string \<Rightarrow> Personalization \<Rightarrow> Personalization" where
  "SetSubstitution k v p = p\<lparr>Substitutions := (Substitutions p)(k \<mapsto> v)\<rparr>"

text \<open>
  \<^verbatim>\<open>mail.NewSingleEmail\<close>: one personalization holding the one recipient, and the two
  content parts, plain text first.
\<close>

definition NewSingleEmail :: "Email option \<Rightarrow> string \<Rightarrow> Email option \<Rightarrow> string \<Rightarrow> string \<Rightarrow> SGMailV3" where
  "NewSingleEmail from_addr subj to_addr plainTextContent htmlContent =
     \<lparr>From = from_addr, Subject = subj,
      Personalizations = [AddTos [to_addr] NewPersonalization],
      MailContent = [NewContent ''text/plain'' plainTextContent,
                     NewContent ''text/html'' htmlContent],
      Attachments = [], TemplateID = []\<rparr>"

text \<open>\<^verbatim>\<open>message.Personalizations[0].f(...)\<close>: the first personalization is updated in place.\<close>

definition onPersonalization0 :: "(Personalization \<Rightarrow> Personalization) \<Rightarrow> SGMailV3 \<Rightarrow> SGMailV3" where
  "onPersonalization0 f m =
     m\<lparr>Personalizations := (Personalizations m)[0 := f (Personalizations m ! 0)]\<rparr>"

definition AddAttachment :: "Attachment \<Rightarrow> SGMailV3 \<Rightarrow> SGMailV3" where
  "AddAttachment a m = m\<lparr>Attachments := Attachments m @ [a]\<rparr>"

subsection \<open>Base64 and MIME types\<close>

text \<open>\<^verbatim>\<open>base64.StdEncoding.EncodeToString\<close>: three bytes give four characters, padded with \<^verbatim>\<open>=\<close>.\<close>

definition encodeStd :: string where
  "encodeStd = ''ABCDEFGHIJKLMNOPQRSTUVWXYZabcdefghijklmnopqrstuvwxyz0123456789+/''"

definition sextet :: "nat \<Rightarrow> char" where
  "sextet v = encodeStd ! (v mod 64)"

fun EncodeToString :: "string \<Rightarrow> string" where
  "EncodeToString (a # b # c # src) =
     (let v = of_char a * 65536 + of_char b * 256 + (of_char c :: nat) in
      sextet (v div 262144) # sextet (v div 4096) # sextet (v div 64) # sextet v
        # EncodeToString src)"
| "EncodeToString [a, b] =
     (let v = of_char a * 65536 + of_char b * 256 in
      [sextet (v div 262144), sextet (v div 4096), sextet (v div 64), CHR ''=''])"
| "EncodeToString [a] =
     (let v = of_char a * 65536 in
      [sextet (v div 262144), sextet (v div 4096), CHR ''='', CHR ''=''])"
| "EncodeToString [] = []"

text \<open>
  \<^verbatim>\<open>mime.TypeByExtension(ext)\<close>: the table is looked up with \<open>ext\<close> as it is, then
  with \<open>ext\<close> in lower case against the keys in lower case; no entry gives the empty
  string. The table depends on the machine (built-in entries and the system's
  \<^verbatim>\<open>mime.types\<close> files), so it is a parameter; every key of it begins with a dot. The
  lower case is that of ASCII letters.
\<close>

definition lower_char :: "char \<Rightarrow> char" where
  "lower_char c =
     (if c \<in> set ''ABCDEFGHIJKLMNOPQRSTUVWXYZ'' then char_of (of_char c + (32::nat)) else c)"

definition ToLower :: "string \<Rightarrow> string" where
  "ToLower s = map lower_char s"

text \<open>Reading a Go map of strings: a missing key gives the empty string.\<close>

definition map_get :: "(string \<times> string) list \<Rightarrow> string \<Rightarrow> string" where
  "map_get table k = (case map_of table k of Some v \<Rightarrow> v | None \<Rightarrow> [])"

definition TypeByExtension :: "(string \<times> string) list \<Rightarrow> string \<Rightarrow> string" where
  "TypeByExtension table ext =
     (let v = map_get table ext in
      if v \<noteq> [] then v
      else map_get (map (\<lambda>(k, v). (ToLower k, v)) table) (ToLower ext))"

text \<open>The built-in table of package mime.\<close>

definition builtinTypes :: "(string \<times> string) list" where
  "builtinTypes =
     [(''.css'', ''text/css; charset=utf-8''),
      (''.gif'', ''image/gif''),
      (''.htm'', ''text/html; charset=utf-8''),
      (''.html'', ''text/html; charset=utf-8''),
      (''.jpg'', ''image/jpeg''),
      (''.js'', ''application/x-javascript''),
      (''.pdf'', ''application/pdf''),
      (''.png'', ''image/png''),
      (''.svg'', ''image/svg+xml''),
      (''.xml'', ''text/xml; charset=utf-8'')]"

subsection \<open>The command\<close>

text \<open>The values of the flags, and what the run reads from its environment.\<close>

record flags =
  flag_from :: string
  flag_subject :: string
  flag_to :: "string list"
  flag_cc :: "string list"
  flag_html :: string
  flag_plain :: string
  flag_template_id :: string
  flag_key :: string
  flag_user :: string
  flag_password :: string
  flag_att :: "string list"
  flag_sub :: "string list"

record world =
  files :: "string \<rightharpoonup> string"            \<comment> \<open>the files that \<^verbatim>\<open>ioutil.ReadFile\<close> can read\<close>
  SENDGRID_API_KEY :: string               \<comment> \<open>\<^verbatim>\<open>os.Getenv("SENDGRID_API_KEY")\<close>\<close>
  html2text :: "string \<Rightarrow> string"         \<comment> \<open>\<^verbatim>\<open>html2text.FromString\<close> with pretty tables\<close>
  mimeTypes :: "(string \<times> string) list"    \<comment> \<open>the table of package mime\<close>

text \<open>
  The request of the legacy path: the address, the file parts (form field, file name,
  content) and the form values, a Go map from a key to its list of values.
\<close>

record LegacyRequest =
  request_url :: string
  request_files :: "(string \<times> string \<times> string) list"
  request_values :: "string \<rightharpoonup> string list"

text \<open>
  What the run hands to the network: the message for the v3 client with the key, or the
  request of the legacy path (with the message it was made from).
\<close>

datatype dispatch =
    SendV3 string SGMailV3
  | SendV2 LegacyRequest SGMailV3

definition readFile :: "world \<Rightarrow> string \<Rightarrow> error + string" where
  "readFile w filename =
     (case files w filename of None \<Rightarrow> Inl (FileReadError filename) | Some b \<Rightarrow> Inr b)"

text \<open>\<^verbatim>\<open>for i, raw := range raws { addresses[i] = createAddress(raw) }\<close>\<close>

fun parseEach :: "Email option list \<Rightarrow> nat \<Rightarrow> string list \<Rightarrow> error + Email option list" where
  "parseEach addresses i [] = Inr addresses"
| "parseEach addresses i (raw # raws) =
     (case createAddress raw of
        Inl e \<Rightarrow> Inl e
      | Inr a \<Rightarrow> parseEach (addresses[i := Some a]) (Suc i) raws)"

text \<open>
  The choice of the two bodies in \<^verbatim>\<open>send\<close>: files, else arguments, else the template's
  stand-in. \<open>fileBodies\<close> is the branch that reads the files of \<^verbatim>\<open>--html\<close> and
  \<^verbatim>\<open>--plain\<close>.
\<close>

definition fileBodies :: "world \<Rightarrow> flags \<Rightarrow> error + (string \<times> string)" where
  "fileBodies w fl =
     (case (if flag_html fl \<noteq> [] then readFile w (flag_html fl) else Inr []) of
        Inl e \<Rightarrow> Inl e
      | Inr htmlContent \<Rightarrow>
          if flag_plain fl \<noteq> [] then
            (case readFile w (flag_plain fl) of
               Inl e \<Rightarrow> Inl e
             | Inr plainTextContent \<Rightarrow> Inr (htmlContent, plainTextContent))
          else Inr (htmlContent, html2text w htmlContent))"

definition contents :: "world \<Rightarrow> flags \<Rightarrow> string list \<Rightarrow> error + (string \<times> string)" where
  "contents w fl args =
     (if flag_html fl \<noteq> [] \<or> flag_plain fl \<noteq> [] then fileBodies w fl
      else if flag_template_id fl = [] \<or> length args > 0 then
        messageBodies (html2text w) args
      else if flag_template_id fl = [] then Inl NoContentWay
      else Inr (''<!-- Dummy Content -->'', []))"

text \<open>The key that the run goes on with; empty when a user name stands in for it.\<close>

definition credentials :: "world \<Rightarrow> flags \<Rightarrow> error + string" where
  "credentials w fl =
     (if flag_key fl = [] \<and> flag_user fl = [] then
        if SENDGRID_API_KEY w = [] then Inl MissingCredentials
        else Inr (SENDGRID_API_KEY w)
      else Inr (flag_key fl))"

text \<open>The loop over the values of \<^verbatim>\<open>--att\<close>.\<close>

definition newAttachment :: "world \<Rightarrow> string \<Rightarrow> string \<Rightarrow> Attachment" where
  "newAttachment w attFilename b =
     \<lparr>AttContent = EncodeToString b,
      AttType = TypeByExtension (mimeTypes w) attFilename,
      Filename = attFilename,
      Disposition = ''attachment''\<rparr>"

fun addAttachments :: "world \<Rightarrow> string list \<Rightarrow> SGMailV3 \<Rightarrow> error + SGMailV3" where
  "addAttachments w [] m = Inr m"
| "addAttachments w (attFilename # rest) m =
     (case files w attFilename of
        None \<Rightarrow> Inl (FileReadError attFilename)
      | Some b \<Rightarrow> addAttachments w rest (AddAttachment (newAttachment w attFilename b) m))"

text \<open>\<^verbatim>\<open>strings.SplitN(sub, "=", 2)\<close> and the loop over the values of \<^verbatim>\<open>--sub\<close>.\<close>

definition SplitN2 :: "string \<Rightarrow> string \<Rightarrow> string list" where
  "SplitN2 s sep =
     (case Index s sep of None \<Rightarrow> [s] | Some m \<Rightarrow> [take m s, drop (m + length sep) s])"

fun addSubstitutions :: "string list \<Rightarrow> SGMailV3 \<Rightarrow> error + SGMailV3" where
  "addSubstitutions [] m = Inr m"
| "addSubstitutions (sub # rest) m =
     (let parts = SplitN2 sub ''='' in
      if length parts \<noteq> 2 then Inl IncorrectSubstitution
      else addSubstitutions rest
             (onPersonalization0 (SetSubstitution (''[%'' @ parts ! 0 @ ''%]'') (parts ! 1)) m))"

definition withTemplate :: "flags \<Rightarrow> SGMailV3 \<Rightarrow> error + SGMailV3" where
  "withTemplate fl m =
     (if flag_template_id fl \<noteq> [] then
        addSubstitutions (flag_sub fl) (m\<lparr>TemplateID := flag_template_id fl\<rparr>)
      else Inr m)"

text \<open>
  The recipients: the \<^verbatim>\<open>to\<close> slice is filled from the \<^verbatim>\<open>--to\<close> values; the \<^verbatim>\<open>cc\<close> slice
  is made with the length of the \<^verbatim>\<open>--cc\<close> values, and the loop after it runs over the
  \<^verbatim>\<open>--to\<close> values and stores into the \<^verbatim>\<open>to\<close> slice again.
\<close>

definition recipients :: "flags \<Rightarrow> error + (Email option list \<times> Email option list)" where
  "recipients fl =
     (let toAddressesRaw = flag_to fl in
      if length toAddressesRaw = 0 then Inl NoRecipient
      else
        case parseEach (replicate (length toAddressesRaw) None) 0 toAddressesRaw of
          Inl e \<Rightarrow> Inl e
        | Inr toAddresses \<Rightarrow>
            let ccAddressesRaw = flag_cc fl;
                ccAddresses = replicate (length ccAddressesRaw) None
            in case parseEach toAddresses 0 toAddressesRaw of
                 Inl e \<Rightarrow> Inl e
               | Inr toAddresses \<Rightarrow> Inr (toAddresses, ccAddresses))"

definition buildMessage :: "Email \<Rightarrow> string \<Rightarrow> Email option list \<Rightarrow> Email option list
    \<Rightarrow> string \<Rightarrow> string \<Rightarrow> SGMailV3" where
  "buildMessage from_addr subj toAddresses ccAddresses plainTextContent htmlContent =
     (let message = NewSingleEmail (Some from_addr) subj (toAddresses ! 0)
                      plainTextContent htmlContent;
          message = (if length toAddresses > 1
                     then onPersonalization0 (AddTos (drop 1 toAddresses)) message
                     else message)
      in if length ccAddresses > 0
         then onPersonalization0 (AddCCs ccAddresses) message
         else message)"

subsection \<open>The legacy path\<close>

text \<open>
  \<^verbatim>\<open>addressToLists\<close> reads \<^verbatim>\<open>e.Address\<close> and \<^verbatim>\<open>e.Name\<close> of every entry: a nil entry is
  a nil pointer dereference, which panics.
\<close>

fun addressToLists :: "Email option list \<Rightarrow> error + (string list \<times> string list)" where
  "addressToLists [] = Inr ([], [])"
| "addressToLists (e # emails) =
     (case e of
        None \<Rightarrow> Inl NilPointerPanic
      | Some a \<Rightarrow>
          (case addressToLists emails of
             Inl x \<Rightarrow> Inl x
           | Inr (addresses, addressNames) \<Rightarrow>
               Inr (Address a # addresses, Name a # addressNames)))"

text \<open>\<^verbatim>\<open>values.Add(key, value)\<close> of \<^verbatim>\<open>url.Values\<close>: the value goes behind those of the key.\<close>

definition Add :: "string \<Rightarrow> string \<Rightarrow> (string \<rightharpoonup> string list) \<Rightarrow> (string \<rightharpoonup> string list)" where
  "Add key v values =
     values(key \<mapsto> (case values key of None \<Rightarrow> [] | Some vs \<Rightarrow> vs) @ [v])"

text \<open>The loop of \<^verbatim>\<open>sendV2\<close> over the content parts of the message.\<close>

definition addContent :: "Content \<Rightarrow> (string \<rightharpoonup> string list) \<Rightarrow> (string \<rightharpoonup> string list)" where
  "addContent c values =
     (let values = (if Type c = ''text/html'' \<and> Value c \<noteq> []
                    then Add ''html'' (Value c) values else values)
      in if Type c = ''text/plain'' \<and> Value c \<noteq> []
         then Add ''text'' (Value c) values else values)"

text \<open>
  \<^verbatim>\<open>newMultipPartForm\<close>: every file is opened and read again and becomes a part under
  its own name as the form field, with the base name of the path as the file name; the
  first file that cannot be opened ends it with an error. Then every key of the values
  is written, in the order of Go's map iteration, as the fields that \<open>fieldsFor\<close>
  gives: the key itself for a single value, the key with \<^verbatim>\<open>[]\<close> for each of several.
\<close>

definition Base :: "string \<Rightarrow> string" where
  "Base path = rev (takeWhile (\<lambda>c. c \<noteq> CHR ''/'') (rev path))"

fun formFiles :: "world \<Rightarrow> string list \<Rightarrow> error + (string \<times> string \<times> string) list" where
  "formFiles w [] = Inr []"
| "formFiles w (fn # filenames) =
     (case files w fn of
        None \<Rightarrow> Inl (RequestFailed fn)
      | Some fileContents \<Rightarrow>
          (case formFiles w filenames of
             Inl e \<Rightarrow> Inl e
           | Inr parts \<Rightarrow> Inr ((fn, Base fn, fileContents) # parts)))"

definition fieldsFor :: "string \<Rightarrow> string list \<Rightarrow> (string \<times> string) list" where
  "fieldsFor key vals =
     (if length vals = 1 then [(key, vals ! 0)] else map (\<lambda>v. (key @ ''[]'', v)) vals)"

definition newMultipPartForm :: "world \<Rightarrow> string \<Rightarrow> (string \<rightharpoonup> string list) \<Rightarrow> string list
    \<Rightarrow> error + LegacyRequest" where
  "newMultipPartForm w urlStr values filenames =
     (case formFiles w filenames of
        Inl e \<Rightarrow> Inl e
      | Inr parts \<Rightarrow>
          Inr \<lparr>request_url = urlStr, request_files = parts, request_values = values\<rparr>)"

text \<open>
  \<^verbatim>\<open>sendV2\<close> up to the call of the client: \<open>Inr\<close> is the request that is posted, \<open>Inl\<close>
  an exit before it. The sender is read through its pointer, the recipients through
  \<^verbatim>\<open>addressToLists\<close>, the copies only when there are any.
\<close>

definition sendV2 :: "world \<Rightarrow> string \<Rightarrow> string \<Rightarrow> SGMailV3 \<Rightarrow> error + LegacyRequest" where
  "sendV2 w username password m =
     (case From m of
        None \<Rightarrow> Inl NilPointerPanic
      | Some sender \<Rightarrow>
          let values = [''api_user'' \<mapsto> [username], ''api_key'' \<mapsto> [password],
                        ''subject'' \<mapsto> [Subject m], ''from'' \<mapsto> [Address sender],
                        ''fromname'' \<mapsto> [Name sender]]
          in case addressToLists (To (Personalizations m ! 0)) of
               Inl e \<Rightarrow> Inl e
             | Inr (addresses, addressNames) \<Rightarrow>
                 let values = values(''to'' \<mapsto> addresses, ''toname'' \<mapsto> addressNames);
                     cc = CC (Personalizations m ! 0)
                 in case (if length cc > 0 then
                            (case addressToLists cc of
                               Inl e \<Rightarrow> Inl e
                             | Inr (addresses, addressNames) \<Rightarrow>
                                 Inr (values(''cc'' \<mapsto> addresses, ''ccname'' \<mapsto> addressNames)))
                          else Inr values) of
                      Inl e \<Rightarrow> Inl e
                    | Inr values \<Rightarrow>
                        newMultipPartForm w ''https://api.sendgrid.com/api/mail.send.json''
                          (fold addContent (MailContent m) values)
                          (map Filename (Attachments m)))"

subsection \<open>The command as a whole\<close>

text \<open>\<^verbatim>\<open>send\<close>, in the order of the source; the first fatal exit ends the run.\<close>

definition send :: "world \<Rightarrow> flags \<Rightarrow> string list \<Rightarrow> error + dispatch" where
  "send w fl args =
     (if length args > 2 then Inl TooManyArguments
      else
        case createAddress (flag_from fl) of
          Inl e \<Rightarrow> Inl e
        | Inr from_addr \<Rightarrow>
            if flag_subject fl = [] then Inl SubjectRequired
            else
              case recipients fl of
                Inl e \<Rightarrow> Inl e
              | Inr (toAddresses, ccAddresses) \<Rightarrow>
                  case contents w fl args of
                    Inl e \<Rightarrow> Inl e
                  | Inr (htmlContent, plainTextContent) \<Rightarrow>
                      case credentials w fl of
                        Inl e \<Rightarrow> Inl e
                      | Inr apiKey \<Rightarrow>
                          case addAttachments w (flag_att fl)
                                 (buildMessage from_addr (flag_subject fl) toAddresses
                                    ccAddresses plainTextContent htmlContent) of
                            Inl e \<Rightarrow> Inl e
                          | Inr message \<Rightarrow>
                              case withTemplate fl message of
                                Inl e \<Rightarrow> Inl e
                              | Inr message \<Rightarrow>
                                  if apiKey = [] then
                                    (case sendV2 w (flag_user fl) (flag_password fl)
                                            message of
                                       Inl e \<Rightarrow> Inl e
                                     | Inr request \<Rightarrow> Inr (SendV2 request message))
                                  else Inr (SendV3 apiKey message))"

text \<open>
  \<^verbatim>\<open>send\<close> as it stands in \<^verbatim>\<open>src/cmd/root.go\<close>, the revision before templates and
  the legacy login: the same steps, with the bodies from the files or the arguments and
  the key from the flag or the environment.
\<close>

definition send_root :: "world \<Rightarrow> flags \<Rightarrow> string list \<Rightarrow> error + dispatch" where
  "send_root w fl args =
     (if length args > 2 then Inl TooManyArguments
      else
        case createAddress (flag_from fl) of
          Inl e \<Rightarrow> Inl e
        | Inr from_addr \<Rightarrow>
            if flag_subject fl = [] then Inl SubjectRequired
            else
              case recipients fl of
                Inl e \<Rightarrow> Inl e
              | Inr (toAddresses, ccAddresses) \<Rightarrow>
                  case (if flag_html fl \<noteq> [] \<or> flag_plain fl \<noteq> [] then fileBodies w fl
                        else messageBodies (html2text w) args) of
                    Inl e \<Rightarrow> Inl e
                  | Inr (htmlContent, plainTextContent) \<Rightarrow>
                      case (if flag_key fl = [] then
                              if SENDGRID_API_KEY w = [] then Inl MissingCredentials
                              else Inr (SENDGRID_API_KEY w)
                            else Inr (flag_key fl)) of
                        Inl e \<Rightarrow> Inl e
                      | Inr apiKey \<Rightarrow>
                          case addAttachments w (flag_att fl)
                                 (buildMessage from_addr (flag_subject fl) toAddresses
                                    ccAddresses plainTextContent htmlContent) of
                            Inl e \<Rightarrow> Inl e
                          | Inr message \<Rightarrow> Inr (SendV3 apiKey message))"

definition message_of :: "dispatch \<Rightarrow> SGMailV3" where
  "message_of d = (case d of SendV3 k m \<Rightarrow> m | SendV2 r m \<Rightarrow> m)"

text \<open>
  What the steps after \<^verbatim>\<open>NewSingleEmail\<close> keep of a message: the sender, the recipients
  and copies of the first personalization, and the file names of the attachments.
\<close>

definition holds :: "SGMailV3 \<Rightarrow> Email \<Rightarrow> Email option list \<Rightarrow> Email option list \<Rightarrow> string list \<Rightarrow> bool" where
  "holds m a tos ccs filenames \<longleftrightarrow>
     From m = Some a \<and> Personalizations m \<noteq> [] \<and> To (Personalizations m ! 0) = tos
     \<and> CC (Personalizations m ! 0) = ccs \<and> map Filename (Attachments m) = filenames"

subsection \<open>A sample invocation\<close>

text \<open>
  Concrete inputs for the examples below. The converter of the sample world drops what
  stands between angle brackets; it stands in for the library only in these examples,
  and no general statement depends on it.
\<close>

fun drop_tags :: "bool \<Rightarrow> string \<Rightarrow> string" where
  "drop_tags inside [] = []"
| "drop_tags inside (c # cs) =
     (if c = CHR ''<'' then drop_tags True cs
      else if c = CHR ''>'' then drop_tags False cs
      else if inside then drop_tags inside cs
      else c # drop_tags inside cs)"

definition sample_world :: world where
  "sample_world =
     \<lparr>files = [''report.pdf'' \<mapsto> ''hi''],
      SENDGRID_API_KEY = [],
      html2text = drop_tags False,
      mimeTypes = builtinTypes\<rparr>"

definition sample_flags :: flags where
  "sample_flags =
     \<lparr>flag_from = ''sendgrid-cli@nowitworks.eu'',
      flag_subject = ''Hello'',
      flag_to = [''Ann <ann@example.com>'', ''bob@example.com''],
      flag_cc = [''carol@example.com''],
      flag_html = [], flag_plain = [], flag_template_id = [],
      flag_key = ''SG.key'', flag_user = [], flag_password = [],
      flag_att = [], flag_sub = []\<rparr>"

section \<open>Properties\<close>

subsection \<open>Splitting and trimming\<close>

lemma Index_None_iff: "Index s substr = None \<longleftrightarrow> \<not> sublist substr s"
  by (induction s) (auto simp: sublist_Cons_right)

lemma Split_no_sep: "\<not> sublist sep s \<Longrightarrow> Split s sep = [s]"
  using Index_None_iff [of s sep] by (simp add: Split.simps)

lemma Split_nonempty: "Split s sep \<noteq> []"
  by (subst Split.simps) (simp split: option.split)

lemma trimmed_TrimLeft_hd:
  "TrimLeft s cutset \<noteq> [] \<Longrightarrow> hd (TrimLeft s cutset) \<notin> set cutset"
  unfolding TrimLeft_def using hd_dropWhile [of "\<lambda>c. c \<in> set cutset" s] by simp

lemma TrimRight_last:
  "TrimRight s cutset \<noteq> [] \<Longrightarrow> last (TrimRight s cutset) \<notin> set cutset"
  unfolding TrimRight_def
  using hd_dropWhile [of "\<lambda>c. c \<in> set cutset" "rev s"] by (simp add: last_rev)

lemma TrimRight_hd:
  assumes "TrimRight s cutset \<noteq> []"
  shows "hd (TrimRight s cutset) = hd s"
proof -
  let ?P = "\<lambda>c. c \<in> set cutset"
  have "rev s = takeWhile ?P (rev s) @ dropWhile ?P (rev s)" by simp
  then have "s = rev (dropWhile ?P (rev s)) @ rev (takeWhile ?P (rev s))"
    by (metis rev_append rev_rev_ident)
  then have "s = TrimRight s cutset @ rev (takeWhile ?P (rev s))"
    by (simp add: TrimRight_def)
  with assms show ?thesis by (metis hd_append2)
qed

lemma TrimRight_Nil [simp]: "TrimRight [] cutset = []"
  by (simp add: TrimRight_def)

lemma trimmed_Trim: "trimmed cutset (Trim s cutset)"
proof (cases "Trim s cutset = []")
  case True
  then show ?thesis by (simp add: trimmed_def)
next
  case False
  then have ne: "TrimRight (TrimLeft s cutset) cutset \<noteq> []" by (simp add: Trim_def)
  then have "TrimLeft s cutset \<noteq> []" by auto
  then have "hd (TrimLeft s cutset) \<notin> set cutset" by (rule trimmed_TrimLeft_hd)
  with TrimRight_hd [OF ne] TrimRight_last [OF ne] show ?thesis
    by (simp add: trimmed_def Trim_def)
qed

lemma Trim_id: "trimmed cutset s \<Longrightarrow> Trim s cutset = s"
proof (cases s)
  case Nil
  then show ?thesis by (simp add: Trim_def TrimLeft_def)
next
  case (Cons c cs)
  assume "trimmed cutset s"
  with Cons have h: "c \<notin> set cutset" and l: "last s \<notin> set cutset"
    by (auto simp: trimmed_def)
  from Cons h have left: "TrimLeft s cutset = s" by (simp add: TrimLeft_def)
  define t where "t = rev s"
  from Cons have "t = last s # rev (butlast s)"
    unfolding t_def by (metis append_butlast_last_id list.distinct(1) rev.simps(2) rev_swap)
  with l have "dropWhile (\<lambda>c. c \<in> set cutset) t = t" by simp
  then show ?thesis by (simp add: Trim_def left TrimRight_def t_def)
qed

lemma Trim_eq_iff: "Trim s cutset = s \<longleftrightarrow> trimmed cutset s"
  using trimmed_Trim [of cutset s] Trim_id [of cutset s] by auto

subsection \<open>The address parser\<close>

lemma createAddress_single:
  assumes "raw \<noteq> []" and "\<not> sublist '' <'' raw"
  shows "createAddress raw = Inr (NewEmail (Trim raw '' ><'') (Trim raw '' ><''))"
  using assms by (simp add: createAddress_def Split_no_sep)

subsection \<open>The matcher is right\<close>

inductive_cases accepts_FailE: "accepts Fail u"
inductive_cases accepts_EpsE: "accepts Eps u"
inductive_cases accepts_ClassE: "accepts (Class P) u"
inductive_cases accepts_AltE: "accepts (Alt r s) u"
inductive_cases accepts_CatE: "accepts (Cat r s) u"
inductive_cases accepts_StarE: "accepts (Star r) u"

lemma nullable_accepts: "nullable r \<longleftrightarrow> accepts r []"
proof (induction r)
  case (Cat r s)
  show ?case
  proof
    assume "nullable (Cat r s)"
    with Cat have "accepts r []" and "accepts s []" by simp_all
    from accepts_Cat [OF this] show "accepts (Cat r s) []" by simp
  next
    assume "accepts (Cat r s) []"
    then show "nullable (Cat r s)" using Cat by (auto elim: accepts_CatE)
  qed
qed (auto intro: accepts.intros elim: accepts_FailE accepts_EpsE accepts_ClassE accepts_AltE)

lemma deriv_sound: "accepts (deriv c r) u \<Longrightarrow> accepts r (c # u)"
proof (induction r arbitrary: u)
  case (Class P)
  then show ?case
    by (auto split: if_splits elim: accepts_EpsE accepts_FailE intro: accepts_Class)
next
  case (Cat r s)
  from Cat.prems consider (left) "accepts (Cat (deriv c r) s) u"
    | (right) "nullable r" "accepts (deriv c s) u"
    by (auto split: if_splits elim: accepts_AltE)
  then show ?case
  proof cases
    case left
    then obtain x y where "u = x @ y" "accepts (deriv c r) x" "accepts s y"
      by (auto elim: accepts_CatE)
    with Cat.IH(1) [of x] accepts_Cat [of r "c # x" s y] show ?thesis by simp
  next
    case right
    with Cat.IH(2) [of u] accepts_Cat [of r "[]" s "c # u"] show ?thesis
      by (simp add: nullable_accepts)
  qed
next
  case (Star r)
  then obtain x y where "u = x @ y" "accepts (deriv c r) x" "accepts (Star r) y"
    by (auto elim: accepts_CatE)
  with Star.IH [of x] accepts_Star_step [of r c x y] show ?case by simp
qed (auto elim: accepts_FailE accepts_AltE intro: accepts.intros)

lemma deriv_complete: "accepts r w \<Longrightarrow> w = c # u \<Longrightarrow> accepts (deriv c r) u"
proof (induction r w arbitrary: u rule: accepts.induct)
  case (accepts_Cat r x s y)
  show ?case
  proof (cases x)
    case Nil
    with accepts_Cat show ?thesis
      by (auto simp: nullable_accepts intro: accepts_AltR)
  next
    case (Cons d x')
    with accepts_Cat.prems have "d = c" and u: "u = x' @ y" by simp_all
    with Cons accepts_Cat.IH(1) [of x'] have "accepts (deriv c r) x'" by simp
    from accepts.accepts_Cat [OF this accepts_Cat.hyps(2)] u
    show ?thesis by (auto intro: accepts_AltL)
  qed
next
  case (accepts_Star_step r d x y)
  then have "d = c" and u: "u = x @ y" by simp_all
  with accepts_Star_step.IH(1) [of x] have "accepts (deriv c r) x" by simp
  from accepts_Cat [OF this accepts_Star_step.hyps(2)] u show ?case by simp
qed (auto intro: accepts.intros)

lemma accepts_deriv: "accepts (deriv c r) u \<longleftrightarrow> accepts r (c # u)"
  using deriv_sound deriv_complete by blast

lemma matches_accepts: "matches r u \<longleftrightarrow> accepts r u"
  unfolding matches_def
  by (induction u arbitrary: r) (simp_all add: nullable_accepts accepts_deriv)

lemma accepts_anything: "accepts anything u"
  unfolding anything_def
proof (induction u)
  case Nil
  show ?case by (rule accepts_Star_Nil)
next
  case (Cons c u)
  have "accepts (Class (\<lambda>c. True)) [c]" by (rule accepts_Class) simp
  from accepts_Star_step [OF this Cons] show ?case by simp
qed

lemma MatchString_iff:
  "MatchString pattern s \<longleftrightarrow> (\<exists>u m v. s = u @ m @ v \<and> accepts pattern m)"
  unfolding MatchString_def matches_accepts
proof
  assume "accepts (Cat anything (Cat pattern anything)) s"
  then show "\<exists>u m v. s = u @ m @ v \<and> accepts pattern m"
    by (auto elim!: accepts_CatE)
next
  assume "\<exists>u m v. s = u @ m @ v \<and> accepts pattern m"
  then obtain u m v where s: "s = u @ m @ v" and m: "accepts pattern m" by blast
  from accepts_Cat [OF accepts_anything [of u] accepts_Cat [OF m accepts_anything [of v]]] s
  show "accepts (Cat anything (Cat pattern anything)) s" by simp
qed

lemma accepts_Star_Class: "accepts (Star (Class P)) u \<longleftrightarrow> (\<forall>c\<in>set u. P c)"
proof
  assume "accepts (Star (Class P)) u"
  then show "\<forall>c\<in>set u. P c"
  proof (induction "Star (Class P)" u rule: accepts.induct)
    case accepts_Star_Nil
    show ?case by simp
  next
    case (accepts_Star_step c x y)
    then show ?case by (auto elim: accepts_ClassE)
  qed
next
  assume "\<forall>c\<in>set u. P c"
  then show "accepts (Star (Class P)) u"
  proof (induction u)
    case Nil
    show ?case by (rule accepts_Star_Nil)
  next
    case (Cons c u)
    then have "accepts (Class P) [c]" and "accepts (Star (Class P)) u"
      by (simp_all add: accepts_Class)
    from accepts_Star_step [OF this] show ?case by simp
  qed
qed

lemma accepts_Class_iff: "accepts (Class P) u \<longleftrightarrow> (\<exists>c. u = [c] \<and> P c)"
  by (auto elim: accepts_ClassE intro: accepts_Class)

lemma accepts_Cat_iff: "accepts (Cat r s) w \<longleftrightarrow> (\<exists>u v. w = u @ v \<and> accepts r u \<and> accepts s v)"
  by (blast elim: accepts_CatE intro: accepts_Cat)

lemma accepts_html_pattern:
  "accepts html_pattern m \<longleftrightarrow>
     (\<exists>c w v. m = CHR ''<'' # c # w @ v @ ''>'' \<and> word_char c \<and> (\<forall>d\<in>set w. word_char d)
        \<and> CHR ''>'' \<notin> set v)"
proof
  assume "accepts html_pattern m"
  then obtain a b where m: "m = a @ b" and a: "a = ''<''"
    and b: "accepts (Cat (Cat (Class word_char) (Star (Class word_char)))
         (Cat (Star (Class (\<lambda>c. c \<noteq> CHR ''>''))) (Class (\<lambda>c. c = CHR ''>'')))) b"
    unfolding html_pattern_def accepts_Cat_iff [of "Class (\<lambda>c. c = CHR ''<'')"] accepts_Class_iff
    by blast
  from b obtain x y where b': "b = x @ y"
    and x: "accepts (Cat (Class word_char) (Star (Class word_char))) x"
    and y: "accepts (Cat (Star (Class (\<lambda>c. c \<noteq> CHR ''>''))) (Class (\<lambda>c. c = CHR ''>''))) y"
    unfolding accepts_Cat_iff [of "Cat (Class word_char) (Star (Class word_char))"] by blast
  from x obtain c w where "x = c # w" "word_char c" "\<forall>d\<in>set w. word_char d"
    unfolding accepts_Cat_iff accepts_Class_iff accepts_Star_Class by auto
  moreover from y obtain v where "y = v @ ''>''" "CHR ''>'' \<notin> set v"
    unfolding accepts_Cat_iff accepts_Class_iff accepts_Star_Class by auto
  ultimately show "\<exists>c w v. m = CHR ''<'' # c # w @ v @ ''>'' \<and> word_char c
      \<and> (\<forall>d\<in>set w. word_char d) \<and> CHR ''>'' \<notin> set v"
    using m a b' by auto
next
  assume "\<exists>c w v. m = CHR ''<'' # c # w @ v @ ''>'' \<and> word_char c
      \<and> (\<forall>d\<in>set w. word_char d) \<and> CHR ''>'' \<notin> set v"
  then obtain c w v where m: "m = ''<'' @ (c # w) @ (v @ ''>'')" and c: "word_char c"
    and w: "\<forall>d\<in>set w. word_char d" and v: "CHR ''>'' \<notin> set v" by auto
  have 1: "accepts (Class (\<lambda>c. c = CHR ''<'')) ''<''" by (simp add: accepts_Class_iff)
  have "accepts (Class word_char) [c]" using c by (simp add: accepts_Class_iff)
  moreover have "accepts (Star (Class word_char)) w" using w by (simp add: accepts_Star_Class)
  ultimately have 2: "accepts (Cat (Class word_char) (Star (Class word_char))) ([c] @ w)"
    by (rule accepts_Cat)
  have "accepts (Star (Class (\<lambda>c. c \<noteq> CHR ''>''))) v" using v by (auto simp: accepts_Star_Class)
  moreover have "accepts (Class (\<lambda>c. c = CHR ''>'')) ''>''" by (simp add: accepts_Class_iff)
  ultimately have 3: "accepts (Cat (Star (Class (\<lambda>c. c \<noteq> CHR ''>'')))
      (Class (\<lambda>c. c = CHR ''>''))) (v @ ''>'')"
    by (rule accepts_Cat)
  from accepts_Cat [OF 1 accepts_Cat [OF 2 3]] show "accepts html_pattern m"
    unfolding html_pattern_def m by simp
qed

text \<open>
  So a string looks like HTML exactly when it has an opening angle bracket with a word
  character next to it and a closing angle bracket somewhere behind.
\<close>

lemma MatchString_html_pattern:
  "MatchString html_pattern s \<longleftrightarrow>
     (\<exists>u c t. s = u @ CHR ''<'' # c # t \<and> word_char c \<and> CHR ''>'' \<in> set t)"
proof
  assume "MatchString html_pattern s"
  then obtain u c w v x where "s = u @ (CHR ''<'' # c # w @ v @ ''>'') @ x" "word_char c"
    unfolding MatchString_iff accepts_html_pattern by blast
  then have "s = u @ CHR ''<'' # c # (w @ v @ ''>'' @ x) \<and> word_char c
      \<and> CHR ''>'' \<in> set (w @ v @ ''>'' @ x)" by simp
  then show "\<exists>u c t. s = u @ CHR ''<'' # c # t \<and> word_char c \<and> CHR ''>'' \<in> set t" by blast
next
  assume "\<exists>u c t. s = u @ CHR ''<'' # c # t \<and> word_char c \<and> CHR ''>'' \<in> set t"
  then obtain u c t where s: "s = u @ CHR ''<'' # c # t" and c: "word_char c"
    and t: "CHR ''>'' \<in> set t" by blast
  from t obtain v x where t': "t = v @ CHR ''>'' # x" and v: "CHR ''>'' \<notin> set v"
    by (auto dest: split_list_first)
  have "accepts html_pattern (CHR ''<'' # c # [] @ v @ ''>'')"
    using c v
    by (intro iffD2 [OF accepts_html_pattern] exI [of _ c] exI [of _ "[]"] exI [of _ v]) simp
  moreover have "s = u @ (CHR ''<'' # c # [] @ v @ ''>'') @ x" using s t' by simp
  ultimately show "MatchString html_pattern s" unfolding MatchString_iff by (intro exI conjI)
qed

subsection \<open>The bodies and the steps of the command\<close>

lemma scanBodies_None_iff:
  "scanBodies conv args i bs = None \<longleftrightarrow> (\<forall>b\<in>set bs. \<not> MatchString html_pattern b)"
  by (induction bs arbitrary: i) auto

lemma messageBodies_MissingBody_iff:
  "messageBodies conv args = Inl MissingBody \<longleftrightarrow>
     args = [] \<or> ((\<forall>b\<in>set args. \<not> MatchString html_pattern b) \<and> hd args = [])"
proof (cases "scanBodies conv args 0 args")
  case None
  then show ?thesis
    using scanBodies_None_iff [of conv args 0 args]
    by (cases args) (auto simp: messageBodies_def)
next
  case (Some bodies)
  then show ?thesis
    using scanBodies_None_iff [of conv args 0 args]
    by (cases args) (auto simp: messageBodies_def)
qed

lemma messageBodies_error: "messageBodies conv args = Inl e \<Longrightarrow> e = MissingBody"
  by (auto simp: messageBodies_def split: if_splits option.splits)

lemma html_pattern_sample: "MatchString html_pattern ''<p>hi</p>''"
  by (simp add: MatchString_def matches_def anything_def html_pattern_def word_char_def)

lemma contents_MissingBody_iff:
  "contents w fl args = Inl MissingBody \<longleftrightarrow>
     flag_html fl = [] \<and> flag_plain fl = [] \<and>
     (if args = [] then flag_template_id fl = []
      else (\<forall>b\<in>set args. \<not> MatchString html_pattern b) \<and> hd args = [])"
  by (auto simp: contents_def fileBodies_def readFile_def messageBodies_MissingBody_iff
           split: option.splits sum.splits)

subsection \<open>Which failures a step can end with\<close>

lemma createAddress_error:
  "createAddress raw = Inl e \<Longrightarrow> e = MissingAddress \<or> e = IncorrectAddress"
  by (auto simp: createAddress_def Let_def split: if_splits)

lemma parseEach_error:
  "parseEach as i raws = Inl e \<Longrightarrow> e = MissingAddress \<or> e = IncorrectAddress"
  by (induction raws arbitrary: as i) (auto split: sum.splits dest: createAddress_error)

lemma recipients_error:
  "recipients fl = Inl e \<Longrightarrow> e = NoRecipient \<or> e = MissingAddress \<or> e = IncorrectAddress"
  by (auto simp: recipients_def Let_def split: if_splits sum.splits dest: parseEach_error)

lemma credentials_error: "credentials w fl = Inl e \<Longrightarrow> e = MissingCredentials"
  by (auto simp: credentials_def split: if_splits)

lemma addAttachments_error: "addAttachments w fs m = Inl e \<Longrightarrow> \<exists>f. e = FileReadError f"
  by (induction fs arbitrary: m) (auto split: option.splits)

lemma addSubstitutions_error: "addSubstitutions subs m = Inl e \<Longrightarrow> e = IncorrectSubstitution"
  by (induction subs arbitrary: m) (auto simp: Let_def split: if_splits)

lemma withTemplate_error: "withTemplate fl m = Inl e \<Longrightarrow> e = IncorrectSubstitution"
  by (auto simp: withTemplate_def split: if_splits dest: addSubstitutions_error)

lemma addressToLists_error: "addressToLists emails = Inl e \<Longrightarrow> e = NilPointerPanic"
  by (induction emails) (auto split: option.splits sum.splits)

lemma formFiles_error: "formFiles w filenames = Inl e \<Longrightarrow> \<exists>f. e = RequestFailed f"
  by (induction filenames arbitrary: e) (auto split: option.splits sum.splits)

lemma sendV2_error:
  "sendV2 w username password m = Inl e \<Longrightarrow> e = NilPointerPanic \<or> (\<exists>f. e = RequestFailed f)"
  by (auto simp: sendV2_def newMultipPartForm_def Let_def
      split: option.splits sum.splits prod.splits if_splits
      dest: addressToLists_error formFiles_error)

subsection \<open>What the later steps leave alone\<close>

lemma addAttachments_MailContent:
  "addAttachments w fs m = Inr m' \<Longrightarrow> MailContent m' = MailContent m"
  by (induction fs arbitrary: m) (auto simp: AddAttachment_def split: option.splits)

lemma addSubstitutions_MailContent:
  "addSubstitutions subs m = Inr m' \<Longrightarrow> MailContent m' = MailContent m"
  by (induction subs arbitrary: m) (auto simp: Let_def onPersonalization0_def split: if_splits)

lemma withTemplate_MailContent:
  "withTemplate fl m = Inr m' \<Longrightarrow> MailContent m' = MailContent m"
  by (auto simp: withTemplate_def split: if_splits dest: addSubstitutions_MailContent)

lemma buildMessage_MailContent:
  "MailContent (buildMessage a subj tos ccs plain html)
     = [NewContent ''text/plain'' plain, NewContent ''text/html'' html]"
  by (simp add: buildMessage_def NewSingleEmail_def onPersonalization0_def Let_def)

lemma send_after_contents:
  assumes "\<not> 2 < length args" and "createAddress (flag_from fl) = Inr a"
    and "flag_subject fl \<noteq> []" and "recipients fl = Inr (tos, ccs)"
    and "contents w fl args = Inr (h, p)"
  shows "send w fl args =
     (case credentials w fl of
        Inl e \<Rightarrow> Inl e
      | Inr apiKey \<Rightarrow>
          case addAttachments w (flag_att fl) (buildMessage a (flag_subject fl) tos ccs p h) of
            Inl e \<Rightarrow> Inl e
          | Inr message \<Rightarrow>
              case withTemplate fl message of
                Inl e \<Rightarrow> Inl e
              | Inr message \<Rightarrow>
                  if apiKey = [] then
                    (case sendV2 w (flag_user fl) (flag_password fl) message of
                       Inl e \<Rightarrow> Inl e
                     | Inr request \<Rightarrow> Inr (SendV2 request message))
                  else Inr (SendV3 apiKey message))"
  using assms by (simp add: send_def)

lemma send_Inr_D:
  assumes "send w fl args = Inr d"
  obtains a tos ccs h p where "\<not> 2 < length args" and "createAddress (flag_from fl) = Inr a"
    and "flag_subject fl \<noteq> []" and "recipients fl = Inr (tos, ccs)"
    and "contents w fl args = Inr (h, p)"
  using assms by (auto simp: send_def split: if_splits sum.splits prod.splits)

lemma send_Inr_MailContent:
  assumes "send w fl args = Inr d" and "contents w fl args = Inr (h, p)"
  shows "MailContent (message_of d) = [NewContent ''text/plain'' p, NewContent ''text/html'' h]"
proof -
  from assms(1) obtain a tos ccs h' p' where f: "\<not> 2 < length args"
    "createAddress (flag_from fl) = Inr a" "flag_subject fl \<noteq> []"
    "recipients fl = Inr (tos, ccs)" "contents w fl args = Inr (h', p')"
    by (rule send_Inr_D)
  with assms(2) have hp: "h' = h" "p' = p" by simp_all
  from assms(1) show ?thesis
    unfolding send_after_contents [OF f] hp
    by (auto simp: message_of_def buildMessage_MailContent split: sum.splits if_splits
        dest!: addAttachments_MailContent withTemplate_MailContent)
qed

lemma send_error_cases:
  assumes "send w fl args = Inl e"
  shows "e = TooManyArguments \<or> e = MissingAddress \<or> e = IncorrectAddress \<or> e = SubjectRequired
    \<or> e = NoRecipient \<or> contents w fl args = Inl e \<or> e = MissingCredentials
    \<or> (\<exists>f. e = FileReadError f) \<or> e = IncorrectSubstitution
    \<or> e = NilPointerPanic \<or> (\<exists>f. e = RequestFailed f)"
  using assms
  by (auto simp: send_def split: if_splits sum.splits prod.splits
      dest: createAddress_error recipients_error credentials_error addAttachments_error
        withTemplate_error sendV2_error)

text \<open>The revision of \<^verbatim>\<open>src/cmd/root.go\<close> is the latest one without a template and a user name.\<close>

lemma send_root_eq:
  assumes "flag_template_id fl = []" and "flag_user fl = []"
  shows "send w fl args = send_root w fl args"
  using assms
  by (auto simp: send_def send_root_def contents_def credentials_def withTemplate_def
      split: sum.splits prod.splits)

subsection \<open>When the later steps succeed\<close>

lemma addAttachments_ok_iff:
  "(\<exists>m'. addAttachments w fs m = Inr m') \<longleftrightarrow> set fs \<subseteq> dom (files w)"
  by (induction fs arbitrary: m) (auto split: option.splits)

lemma Index_char_None_iff: "Index s [c] = None \<longleftrightarrow> c \<notin> set s"
  by (induction s) auto

lemma SplitN2_length: "length (SplitN2 s [c]) = 2 \<longleftrightarrow> c \<in> set s"
  using Index_char_None_iff [of s c] by (auto simp: SplitN2_def split: option.splits)

lemma addSubstitutions_ok_iff:
  "(\<exists>m'. addSubstitutions subs m = Inr m') \<longleftrightarrow> (\<forall>s\<in>set subs. CHR ''='' \<in> set s)"
  by (induction subs arbitrary: m) (auto simp: Let_def SplitN2_length)

lemma withTemplate_ok_iff:
  "(\<exists>m'. withTemplate fl m = Inr m') \<longleftrightarrow>
     (flag_template_id fl \<noteq> [] \<longrightarrow> (\<forall>s\<in>set (flag_sub fl). CHR ''='' \<in> set s))"
  by (simp add: withTemplate_def addSubstitutions_ok_iff)

lemma credentials_MissingCredentials_iff:
  "credentials w fl = Inl MissingCredentials \<longleftrightarrow>
     flag_key fl = [] \<and> flag_user fl = [] \<and> SENDGRID_API_KEY w = []"
  by (auto simp: credentials_def)


subsection \<open>Recipients and attachments\<close>

lemma parseEach_length:
  "parseEach as i raws = Inr bs \<Longrightarrow> length bs = length as"
  by (induction raws arbitrary: as i) (auto split: sum.splits)

lemma recipients_cc_nil:
  "recipients fl = Inr (tos, ccs) \<Longrightarrow> ccs = replicate (length (flag_cc fl)) None"
  by (auto simp: recipients_def Let_def split: if_splits sum.splits)

lemma parseEach_filled:
  assumes "parseEach as i raws = Inr bs" and "i + length raws \<le> length as"
    and "\<forall>j<i. as ! j \<noteq> None"
  shows "\<forall>j<i + length raws. bs ! j \<noteq> None"
  using assms
proof (induction raws arbitrary: as i)
  case Nil
  then show ?case by simp
next
  case (Cons raw raws)
  from Cons.prems(1) obtain a where a: "createAddress raw = Inr a"
    and rest: "parseEach (as[i := Some a]) (Suc i) raws = Inr bs"
    by (auto split: sum.splits)
  from Cons.prems(2) have "Suc i + length raws \<le> length (as[i := Some a])" by simp
  moreover from Cons.prems(2,3) have "\<forall>j<Suc i. as[i := Some a] ! j \<noteq> None"
    by (auto simp: nth_list_update less_Suc_eq)
  ultimately have "\<forall>j<Suc i + length raws. bs ! j \<noteq> None"
    by (rule Cons.IH [OF rest])
  then show ?case by simp
qed

lemma recipients_to_parsed:
  assumes "recipients fl = Inr (tos, ccs)"
  shows "tos \<noteq> [] \<and> None \<notin> set tos"
proof -
  let ?raws = "flag_to fl"
  from assms obtain t1 where ne: "?raws \<noteq> []"
    and 1: "parseEach (replicate (length ?raws) None) 0 ?raws = Inr t1"
    and 2: "parseEach t1 0 ?raws = Inr tos"
    by (auto simp: recipients_def Let_def split: if_splits sum.splits)
  from parseEach_length [OF 1] have l1: "length t1 = length ?raws" by simp
  with parseEach_length [OF 2] have l: "length tos = length ?raws" by simp
  from parseEach_filled [OF 2] l1 have "\<forall>j<length ?raws. tos ! j \<noteq> None" by simp
  with l have "None \<notin> set tos" by (auto simp: in_set_conv_nth)
  with l ne show ?thesis by auto
qed

lemma addressToLists_ok: "None \<notin> set emails \<Longrightarrow> \<exists>r. addressToLists emails = Inr r"
proof (induction emails)
  case Nil
  show ?case by simp
next
  case (Cons e emails)
  then obtain a r where "e = Some a" and "addressToLists emails = Inr r" by (cases e) auto
  then show ?case by (cases r) simp
qed

lemma addressToLists_nil: "None \<in> set emails \<Longrightarrow> addressToLists emails = Inl NilPointerPanic"
  by (induction emails) (auto split: option.splits sum.splits dest: addressToLists_error)




lemma sendV2_nil_cc:
  assumes "From m = Some a" and "None \<notin> set (To (Personalizations m ! 0))"
    and "None \<in> set (CC (Personalizations m ! 0))"
  shows "sendV2 w username password m = Inl NilPointerPanic"
proof -
  from addressToLists_ok [OF assms(2)] obtain as ns
    where t: "addressToLists (To (Personalizations m ! 0)) = Inr (as, ns)" by auto
  from assms(3) have "CC (Personalizations m ! 0) \<noteq> []" by auto
  with assms(1) t addressToLists_nil [OF assms(3)] show ?thesis
    by (simp add: sendV2_def Let_def)
qed

lemma buildMessage_holds:
  "tos \<noteq> [] \<Longrightarrow> holds (buildMessage a subj tos ccs plain html) a tos ccs []"
  by (cases tos)
    (auto simp: holds_def buildMessage_def NewSingleEmail_def onPersonalization0_def Let_def
      AddTos_def AddCCs_def NewPersonalization_def)

lemma addAttachments_holds:
  "addAttachments w fs m = Inr m' \<Longrightarrow> holds m a tos ccs gs \<Longrightarrow> holds m' a tos ccs (gs @ fs)"
proof (induction fs arbitrary: m gs)
  case Nil
  then show ?case by simp
next
  case (Cons f fs)
  from Cons.prems(1) obtain b where
    rest: "addAttachments w fs (AddAttachment (newAttachment w f b) m) = Inr m'"
    by (auto split: option.splits)
  from Cons.prems(2) have "holds (AddAttachment (newAttachment w f b) m) a tos ccs (gs @ [f])"
    by (simp add: holds_def AddAttachment_def newAttachment_def)
  from Cons.IH [OF rest this] show ?case by simp
qed

lemma addSubstitutions_holds:
  "addSubstitutions subs m = Inr m' \<Longrightarrow> holds m a tos ccs gs \<Longrightarrow> holds m' a tos ccs gs"
proof (induction subs arbitrary: m)
  case Nil
  then show ?case by simp
next
  case (Cons sub subs)
  let ?parts = "SplitN2 sub ''=''"
  let ?m = "onPersonalization0 (SetSubstitution (''[%'' @ ?parts ! 0 @ ''%]'') (?parts ! 1)) m"
  from Cons.prems(1) have rest: "addSubstitutions subs ?m = Inr m'"
    by (auto simp: Let_def split: if_splits)
  from Cons.prems(2) have "holds ?m a tos ccs gs"
    by (cases "Personalizations m") (auto simp: holds_def onPersonalization0_def SetSubstitution_def)
  from Cons.IH [OF rest this] show ?case .
qed

lemma withTemplate_holds:
  "withTemplate fl m = Inr m' \<Longrightarrow> holds m a tos ccs gs \<Longrightarrow> holds m' a tos ccs gs"
proof -
  have "holds (m\<lparr>TemplateID := t\<rparr>) a tos ccs gs" if "holds m a tos ccs gs" for t
    using that by (simp add: holds_def)
  then show "withTemplate fl m = Inr m' \<Longrightarrow> holds m a tos ccs gs \<Longrightarrow> holds m' a tos ccs gs"
    by (auto simp: withTemplate_def split: if_splits dest: addSubstitutions_holds)
qed

text \<open>
  On the legacy path every \<^verbatim>\<open>--cc\<close> value ends the run in \<^verbatim>\<open>addressToLists\<close>: the copies
  are nil pointers, whatever the values are.
\<close>

lemma send_legacy_cc:
  assumes "length args \<le> 2" and "createAddress (flag_from fl) = Inr a"
    and "flag_subject fl \<noteq> []" and "recipients fl = Inr (tos, ccs)"
    and "contents w fl args = Inr (h, p)"
    and "flag_key fl = []" and "flag_user fl \<noteq> []" and "flag_cc fl \<noteq> []"
    and "set (flag_att fl) \<subseteq> dom (files w)"
    and "flag_template_id fl \<noteq> [] \<longrightarrow> (\<forall>s\<in>set (flag_sub fl). CHR ''='' \<in> set s)"
  shows "send w fl args = Inl NilPointerPanic"
proof -
  let ?m = "buildMessage a (flag_subject fl) tos ccs p h"
  from assms(1) have l: "\<not> 2 < length args" by simp
  note s = send_after_contents [OF l assms(2,3,4,5)]
  from assms(9) obtain m1 where m1: "addAttachments w (flag_att fl) ?m = Inr m1"
    using addAttachments_ok_iff [of w "flag_att fl" ?m] by blast
  from assms(10) obtain m2 where m2: "withTemplate fl m1 = Inr m2"
    using withTemplate_ok_iff [of fl m1] by blast
  from recipients_to_parsed [OF assms(4)] have tos: "tos \<noteq> []" "None \<notin> set tos" by simp_all
  from buildMessage_holds [OF tos(1)] have "holds ?m a tos ccs []" .
  from addAttachments_holds [OF m1 this] have "holds m1 a tos ccs (flag_att fl)" by simp
  from withTemplate_holds [OF m2 this] have h2: "holds m2 a tos ccs (flag_att fl)" .
  from recipients_cc_nil [OF assms(4)] assms(8) have "None \<in> set ccs" by (cases "flag_cc fl") auto
  with h2 tos have "From m2 = Some a" "None \<notin> set (To (Personalizations m2 ! 0))"
    "None \<in> set (CC (Personalizations m2 ! 0))"
    by (simp_all add: holds_def)
  from sendV2_nil_cc [OF this]
  have "sendV2 w (flag_user fl) (flag_password fl) m2 = Inl NilPointerPanic" .
  with assms(6,7) m1 m2 show ?thesis unfolding s by (simp add: credentials_def)
qed

lemma lower_char_dot: "lower_char c = CHR ''.'' \<longleftrightarrow> c = CHR ''.''"
  by (auto simp: lower_char_def char_of_eq_iff)

lemma TypeByExtension_without_dot:
  assumes keys: "\<forall>k\<in>fst ` set table. prefix ''.'' k" and name: "\<not> prefix ''.'' name"
  shows "TypeByExtension table name = []"
proof -
  from keys name have "name \<notin> fst ` set table" by auto
  then have exact: "map_of table name = None" by (simp add: map_of_eq_None_iff)
  have "ToLower name \<notin> fst ` set (map (\<lambda>(k, v). (ToLower k, v)) table)"
  proof
    assume "ToLower name \<in> fst ` set (map (\<lambda>(k, v). (ToLower k, v)) table)"
    then obtain k where k: "k \<in> fst ` set table" and eq: "ToLower name = ToLower k"
      by (auto simp: image_iff split: prod.splits) force
    from keys k have "prefix ''.'' k" by blast
    then obtain r where "k = CHR ''.'' # r" by (cases k) auto
    with eq have "ToLower name = CHR ''.'' # ToLower r"
      by (simp add: ToLower_def lower_char_def)
    then obtain c cs where "name = c # cs" and "lower_char c = CHR ''.''"
      by (cases name) (auto simp: ToLower_def)
    with name show False by (simp add: lower_char_dot)
  qed
  then have "map_of (map (\<lambda>(k, v). (ToLower k, v)) table) (ToLower name) = None"
    by (simp add: map_of_eq_None_iff)
  with exact show ?thesis by (simp add: TypeByExtension_def map_get_def)
qed

lemma newAttachment_fields:
  "AttContent (newAttachment w name b) = EncodeToString b
   \<and> Filename (newAttachment w name b) = name
   \<and> Disposition (newAttachment w name b) = ''attachment''
   \<and> AttType (newAttachment w name b) = TypeByExtension (mimeTypes w) name"
  by (simp add: newAttachment_def)

subsection \<open>Evaluation of the sample invocation\<close>

text \<open>The definitions that the examples unfold.\<close>

lemmas eval_defs = send_def createAddress_def Split.simps Trim_def TrimLeft_def TrimRight_def NewEmail_def
  recipients_def contents_def credentials_def messageBodies_def MatchString_def matches_def anything_def
  html_pattern_def word_char_def buildMessage_def NewSingleEmail_def NewContent_def NewPersonalization_def
  AddTos_def AddCCs_def onPersonalization0_def withTemplate_def sample_world_def sample_flags_def
  Let_def

section \<open>The claims\<close>

text \<open>
  Claim C1. With two \<^verbatim>\<open>--to\<close> values and one \<^verbatim>\<open>--cc\<close> value the message has a single
  personalization and its \<^verbatim>\<open>to\<close> list holds the two parsed addresses, but its \<^verbatim>\<open>cc\<close>
  list holds one nil pointer: the loop after \<^verbatim>\<open>ccAddresses\<close> is made runs over the
  \<^verbatim>\<open>--to\<close> values again, and the \<^verbatim>\<open>--cc\<close> value, which \<^verbatim>\<open>createAddress\<close> would parse,
  is never read.
\<close>

theorem cc_addresses_not_parsed:
  "map_sum id (\<lambda>d. map (\<lambda>p. (To p, CC p)) (Personalizations (message_of d)))
     (send sample_world sample_flags [''hello''])
   = Inr [([Some \<lparr>Name = ''Ann'', Address = ''ann@example.com''\<rparr>,
            Some \<lparr>Name = ''bob@example.com'', Address = ''bob@example.com''\<rparr>],
           [None])]
   \<and> createAddress ''carol@example.com''
       = Inr \<lparr>Name = ''carol@example.com'', Address = ''carol@example.com''\<rparr>"
  by (simp add: eval_defs message_of_def)

text \<open>
  Claim C2, as amended. For every non-empty raw string without the substring \<^verbatim>\<open>" <"\<close>,
  \<^verbatim>\<open>createAddress\<close> returns an address whose display name and whose address are both the
  raw string with its leading and trailing spaces and angle brackets removed; they are
  the raw string itself exactly when it neither begins nor ends with one of these
  characters.
\<close>

theorem createAddress_without_separator:
  assumes "raw \<noteq> []" and "\<not> sublist '' <'' raw"
  shows "createAddress raw = Inr \<lparr>Name = Trim raw '' ><'', Address = Trim raw '' ><''\<rparr>
    \<and> (createAddress raw = Inr \<lparr>Name = raw, Address = raw\<rparr> \<longleftrightarrow> trimmed '' ><'' raw)"
  using createAddress_single [OF assms] Trim_eq_iff [of raw "'' ><''"]
  by (simp add: NewEmail_def)

theorem createAddress_without_separator_witness:
  "''bob@example.com'' \<noteq> [] \<and> \<not> sublist '' <'' ''bob@example.com''
   \<and> trimmed '' ><'' ''bob@example.com''
   \<and> createAddress ''bob@example.com''
        = Inr \<lparr>Name = ''bob@example.com'', Address = ''bob@example.com''\<rparr>"
proof -
  have ne: "''bob@example.com'' \<noteq> []" by simp
  have ns: "\<not> sublist '' <'' ''bob@example.com''"
    unfolding Index_None_iff [symmetric] by simp
  have tr: "trimmed '' ><'' ''bob@example.com''" by (simp add: trimmed_def)
  from createAddress_without_separator [OF ne ns] tr
  have "createAddress ''bob@example.com''
      = Inr \<lparr>Name = ''bob@example.com'', Address = ''bob@example.com''\<rparr>" by blast
  with ne ns tr show ?thesis by blast
qed

text \<open>
  Claim C2 as it is written fails: \<^verbatim>\<open><bob@example.com>\<close> is not empty and has no
  \<^verbatim>\<open>" <"\<close> in it (the bracket comes first), and the address made of it has lost the
  brackets, so neither field is the raw string.
\<close>

theorem createAddress_raw_counterexample:
  "''<bob@example.com>'' \<noteq> [] \<and> \<not> sublist '' <'' ''<bob@example.com>''
   \<and> createAddress ''<bob@example.com>''
        = Inr \<lparr>Name = ''bob@example.com'', Address = ''bob@example.com''\<rparr>
   \<and> createAddress ''<bob@example.com>''
        \<noteq> Inr \<lparr>Name = ''<bob@example.com>'', Address = ''<bob@example.com>''\<rparr>"
proof -
  have ns: "\<not> sublist '' <'' ''<bob@example.com>''"
    unfolding Index_None_iff [symmetric] by simp
  have "createAddress ''<bob@example.com>''
        = Inr \<lparr>Name = ''bob@example.com'', Address = ''bob@example.com''\<rparr>"
    by (simp add: createAddress_def Split.simps Trim_def TrimLeft_def TrimRight_def NewEmail_def)
  with ns show ?thesis by simp
qed

text \<open>
  Claim C3. For the single positional argument \<^verbatim>\<open><p>hi</p>\<close> and no body files the
  HTML body is the argument unchanged and the plain body is what the HTML-to-text
  converter makes of it; the converter of html2text makes \<^verbatim>\<open>hi\<close> of it, so the plain
  body is \<^verbatim>\<open>hi\<close>, which is not empty.
\<close>

theorem single_html_argument:
  assumes "flag_html fl = []" and "flag_plain fl = []"
  shows "contents w fl [''<p>hi</p>''] = Inr (''<p>hi</p>'', html2text w ''<p>hi</p>'')
    \<and> messageBodies (FromString rest) [''<p>hi</p>''] = Inr (''<p>hi</p>'', ''hi'')
    \<and> contents (w\<lparr>html2text := FromString rest\<rparr>) fl [''<p>hi</p>'']
          = Inr (''<p>hi</p>'', ''hi'')
    \<and> ''hi'' \<noteq> ([] :: string)"
proof -
  have "FromString rest ''<p>hi</p>'' = ''hi''"
    by (simp add: FromString_def pieces.simps plain_char_def render_def textData_def
        spacing_def emit_def isSpace_def newlines_def TrimSpace_def Trim_def TrimLeft_def
        TrimRight_def)
  with assms html_pattern_sample show ?thesis
    by (simp add: contents_def messageBodies_def)
qed

theorem single_html_argument_witness:
  "flag_html sample_flags = [] \<and> flag_plain sample_flags = []
   \<and> contents (sample_world\<lparr>html2text := FromString (drop_tags False)\<rparr>) sample_flags
        [''<p>hi</p>'']
      = Inr (''<p>hi</p>'', ''hi'')"
proof -
  have h: "flag_html sample_flags = []" and p: "flag_plain sample_flags = []"
    by (simp_all add: sample_flags_def)
  from single_html_argument [OF h p, of sample_world "drop_tags False"] h p
  show ?thesis by simp
qed

text \<open>
  Claim C4. With a template id, no body files and no positional arguments the HTML
  content is the fixed comment \<^verbatim>\<open><!-- Dummy Content -->\<close>: the choice of the bodies
  returns it, the run never ends with the missing-body failure, and every message that
  is dispatched carries it as its HTML part.
\<close>

theorem template_placeholder:
  assumes "flag_template_id fl \<noteq> []" and "flag_html fl = []" and "flag_plain fl = []"
  shows "contents w fl [] = Inr (''<!-- Dummy Content -->'', [])
    \<and> send w fl [] \<noteq> Inl MissingBody
    \<and> (\<forall>d. send w fl [] = Inr d \<longrightarrow>
          MailContent (message_of d)
            = [NewContent ''text/plain'' [], NewContent ''text/html'' ''<!-- Dummy Content -->''])"
proof -
  from assms have c: "contents w fl [] = Inr (''<!-- Dummy Content -->'', [])"
    by (simp add: contents_def)
  have "send w fl [] \<noteq> Inl MissingBody"
  proof
    assume "send w fl [] = Inl MissingBody"
    from send_error_cases [OF this] c show False by simp
  qed
  with c send_Inr_MailContent [OF _ c] show ?thesis by blast
qed

theorem template_placeholder_witness:
  "flag_template_id (sample_flags\<lparr>flag_template_id := ''T1''\<rparr>) \<noteq> []
   \<and> flag_html (sample_flags\<lparr>flag_template_id := ''T1''\<rparr>) = []
   \<and> flag_plain (sample_flags\<lparr>flag_template_id := ''T1''\<rparr>) = []
   \<and> map_sum id (\<lambda>d. MailContent (message_of d))
        (send sample_world (sample_flags\<lparr>flag_template_id := ''T1''\<rparr>) [])
      = Inr [\<lparr>Type = ''text/plain'', Value = []\<rparr>,
             \<lparr>Type = ''text/html'', Value = ''<!-- Dummy Content -->''\<rparr>]"
proof -
  let ?fl = "sample_flags\<lparr>flag_template_id := ''T1''\<rparr>"
  have t: "flag_template_id ?fl \<noteq> []" and h: "flag_html ?fl = []" and p: "flag_plain ?fl = []"
    by (simp_all add: sample_flags_def)
  have "\<not> isl (send sample_world ?fl [])" by (simp add: eval_defs)
  then obtain d where d: "send sample_world ?fl [] = Inr d"
    by (cases "send sample_world ?fl []") auto
  with template_placeholder [OF t h p, of sample_world]
  have "MailContent (message_of d)
      = [NewContent ''text/plain'' [], NewContent ''text/html'' ''<!-- Dummy Content -->'']"
    by blast
  with d t h p show ?thesis by (simp add: NewContent_def)
qed

text \<open>
  Claim C5, as amended. The choice of the bodies fails with the missing-body failure
  exactly when no body file is given and either there are no positional arguments and no
  template id, or there are positional arguments, none of them looks like HTML and the
  first one is the empty string. The run then ends in a failure: nothing is dispatched.
\<close>

theorem missing_body_exactly:
  "(contents w fl args = Inl MissingBody \<longleftrightarrow>
      flag_html fl = [] \<and> flag_plain fl = [] \<and>
      (if args = [] then flag_template_id fl = []
       else (\<forall>b\<in>set args. \<not> MatchString html_pattern b) \<and> hd args = []))
   \<and> (contents w fl args = Inl MissingBody \<longrightarrow> (\<exists>e. send w fl args = Inl e))"
proof -
  have "\<exists>e. send w fl args = Inl e" if "contents w fl args = Inl MissingBody"
    using that by (auto simp: send_def split: sum.splits prod.splits)
  with contents_MissingBody_iff [of w fl args] show ?thesis by blast
qed

theorem missing_body_exactly_witness:
  "contents sample_world sample_flags [] = Inl MissingBody
   \<and> flag_html sample_flags = [] \<and> flag_plain sample_flags = []
   \<and> flag_template_id sample_flags = []
   \<and> send sample_world sample_flags [] = Inl MissingBody"
proof -
  have f: "flag_html sample_flags = []" "flag_plain sample_flags = []"
    "flag_template_id sample_flags = []"
    by (simp_all add: sample_flags_def)
  with missing_body_exactly [of sample_world sample_flags "[]"]
  have c: "contents sample_world sample_flags [] = Inl MissingBody"
    and "\<exists>e. send sample_world sample_flags [] = Inl e" by simp_all
  moreover have "send sample_world sample_flags [] = Inl MissingBody"
    by (simp add: eval_defs)
  ultimately show ?thesis using f by simp
qed

text \<open>
  Claim C5 as it is written fails: with the positional arguments \<^verbatim>\<open>""\<close> and
  \<^verbatim>\<open>"hello"\<close> the failure is the missing body although positional arguments are present.
\<close>

theorem missing_body_counterexample:
  "\<not> (contents sample_world sample_flags ['''', ''hello''] = Inl MissingBody \<longleftrightarrow>
        ['''', ''hello''] = [] \<and> flag_html sample_flags = [] \<and> flag_plain sample_flags = []
        \<and> flag_template_id sample_flags = [])"
  by (simp add: contents_def messageBodies_def MatchString_def matches_def anything_def
      html_pattern_def word_char_def sample_flags_def)

text \<open>
  Claim C6. With more than two positional arguments the run ends with the
  too-many-arguments failure; it is the first test of \<^verbatim>\<open>send\<close>, before any address is
  parsed, any message built or anything dispatched, in the latest revision and in that of
  \<^verbatim>\<open>src/cmd/root.go\<close>.
\<close>

theorem too_many_arguments:
  "2 < length args \<Longrightarrow>
     send w fl args = Inl TooManyArguments \<and> send_root w fl args = Inl TooManyArguments"
  by (simp add: send_def send_root_def)

theorem too_many_arguments_witness:
  "2 < length [''a'', ''b'', ''c'']
   \<and> send sample_world sample_flags [''a'', ''b'', ''c''] = Inl TooManyArguments
   \<and> send_root sample_world sample_flags [''a'', ''b'', ''c''] = Inl TooManyArguments"
proof -
  have l: "2 < length [''a'', ''b'', ''c'']" by simp
  from too_many_arguments [OF l, of sample_world sample_flags] l show ?thesis by simp
qed




text \<open>
  Claim C8. For the readable file \<^verbatim>\<open>report.pdf\<close> with the bytes \<^verbatim>\<open>hi\<close> the attachment
  has the base64 text of the bytes, the disposition \<^verbatim>\<open>attachment\<close> and the flag value
  as its file name, but its type is empty: \<^verbatim>\<open>mime.TypeByExtension\<close> is given the whole
  file name, not the extension \<^verbatim>\<open>.pdf\<close>, for which the table has a type.
\<close>

theorem attachment_type_of_filename:
  "map_sum id (\<lambda>d. Attachments (message_of d))
     (send sample_world (sample_flags\<lparr>flag_att := [''report.pdf'']\<rparr>) [''hello''])
   = Inr [\<lparr>AttContent = ''aGk='', AttType = [], Filename = ''report.pdf'',
            Disposition = ''attachment''\<rparr>]
   \<and> TypeByExtension (mimeTypes sample_world) ''.pdf'' = ''application/pdf''"
  by (simp add: eval_defs message_of_def newAttachment_def AddAttachment_def TypeByExtension_def
      map_get_def builtinTypes_def ToLower_def lower_char_def sextet_def encodeStd_def)

text \<open>
  Claim C9. With two positional arguments of which the first looks like HTML, the first
  is the HTML body and the second the plain body, whether or not the second looks like
  HTML too.
\<close>

theorem two_html_arguments:
  assumes "MatchString html_pattern a"
  shows "messageBodies conv [a, b] = Inr (a, b)"
  using assms by (simp add: messageBodies_def)

theorem two_html_arguments_witness:
  "MatchString html_pattern ''<b>x</b>'' \<and> MatchString html_pattern ''<i>y</i>''
   \<and> messageBodies (drop_tags False) [''<b>x</b>'', ''<i>y</i>''] = Inr (''<b>x</b>'', ''<i>y</i>'')"
proof -
  have a: "MatchString html_pattern ''<b>x</b>''" and b: "MatchString html_pattern ''<i>y</i>''"
    by (simp_all add: MatchString_def matches_def anything_def html_pattern_def word_char_def)
  from two_html_arguments [OF a, of "drop_tags False" "''<i>y</i>''"] a b show ?thesis by simp
qed

text \<open>
  Claim C10. Every address that \<^verbatim>\<open>createAddress\<close> returns has a display name and an
  address that neither begin nor end with a space, \<^verbatim>\<open><\<close> or \<^verbatim>\<open>>\<close> (either may be
  empty: a raw string of such characters only is accepted and trimmed to nothing).
\<close>

theorem createAddress_trimmed:
  assumes "createAddress raw = Inr e"
  shows "trimmed '' ><'' (Name e) \<and> trimmed '' ><'' (Address e)"
proof -
  define parts where "parts = Split raw '' <''"
  have ne: "parts \<noteq> []" by (simp add: parts_def Split_nonempty)
  show ?thesis
  proof (cases "length parts < 2")
    case True
    with assms ne have "e = NewEmail (Trim (parts ! 0) '' ><'') (Trim (parts ! 0) '' ><'')"
      by (auto simp: createAddress_def Let_def parts_def [symmetric] split: if_splits)
    then show ?thesis by (simp add: NewEmail_def trimmed_Trim)
  next
    case False
    with assms ne have "e = NewEmail (Trim (parts ! 0) '' ><'') (Trim (parts ! 1) '' ><'')"
      by (auto simp: createAddress_def Let_def parts_def [symmetric] split: if_splits)
    then show ?thesis by (simp add: NewEmail_def trimmed_Trim)
  qed
qed

theorem createAddress_trimmed_witness:
  "createAddress ''Full Name <name@domain.name>''
     = Inr \<lparr>Name = ''Full Name'', Address = ''name@domain.name''\<rparr>
   \<and> trimmed '' ><'' ''Full Name'' \<and> trimmed '' ><'' ''name@domain.name''"
proof -
  have c: "createAddress ''Full Name <name@domain.name>''
     = Inr \<lparr>Name = ''Full Name'', Address = ''name@domain.name''\<rparr>"
    by (simp add: createAddress_def Split.simps Trim_def TrimLeft_def TrimRight_def NewEmail_def)
  from createAddress_trimmed [OF c] c show ?thesis by simp
qed

end
